theory Spec2Isabelle
  imports Complex_Main "HOL-Library.Sublist" "HOL-Library.Multiset" "HOL-Library.Monad_Syntax"
begin

section \<open>JavaScript strings\<close>

text \<open>
  A JavaScript string is a sequence of UTF-16 code units. A code unit is represented by
  its numeric value, so that the full-width brackets, the full-width colon and the Chinese
  role names and sentinels of the scripts are ordinary elements of the alphabet.
\<close>

type_synonym jschar = nat
type_synonym jsstring = "jschar list"

text \<open>An ASCII literal as a JavaScript string.\<close>

definition js :: "string \<Rightarrow> jsstring" where
  "js s = map of_char s"

definition NL :: jschar where "NL = 10"
definition LPAREN :: jschar where "LPAREN = 40"
definition RPAREN :: jschar where "RPAREN = 41"
definition DOT :: jschar where "DOT = 46"
definition COLON :: jschar where "COLON = 58"
definition LBRACKET :: jschar where "LBRACKET = 91"
definition RBRACKET :: jschar where "RBRACKET = 93"
definition FW_LPAREN :: jschar where "FW_LPAREN = 65288"
definition FW_RPAREN :: jschar where "FW_RPAREN = 65289"

text \<open>
  The line terminators of ECMAScript (LF, CR, LS, PS): the characters the regular
  expression atom \<^verbatim>\<open>.\<close> does not match.
\<close>

definition isLineTerminator :: "jschar \<Rightarrow> bool" where
  "isLineTerminator c = (c = 10 \<or> c = 13 \<or> c = 8232 \<or> c = 8233)"

text \<open>
  What \<^verbatim>\<open>String.prototype.trim\<close> strips: WhiteSpace (TAB, VT, FF, ZWNBSP and the
  space separators) and the line terminators.
\<close>

definition isWhiteSpace :: "jschar \<Rightarrow> bool" where
  "isWhiteSpace c =
     (c = 9 \<or> c = 11 \<or> c = 12 \<or> c = 32 \<or> c = 160 \<or> c = 5760 \<or>
      (8192 \<le> c \<and> c \<le> 8202) \<or> c = 8239 \<or> c = 8287 \<or> c = 12288 \<or> c = 65279 \<or>
      isLineTerminator c)"

text \<open>The regular expression class \<^verbatim>\<open>\d\<close>.\<close>

definition isDigit :: "jschar \<Rightarrow> bool" where
  "isDigit c = (48 \<le> c \<and> c \<le> 57)"

definition trim :: "jsstring \<Rightarrow> jsstring" where
  "trim s = rev (dropWhile isWhiteSpace (rev (dropWhile isWhiteSpace s)))"

text \<open>\<^verbatim>\<open>s.split('\n')\<close>: the empty string splits into one empty line.\<close>

fun split_nl :: "jsstring \<Rightarrow> jsstring list" where
  "split_nl [] = [[]]"
| "split_nl (c # cs) =
     (if c = NL then [] # split_nl cs
      else (case split_nl cs of [] \<Rightarrow> [[c]] | l # ls \<Rightarrow> (c # l) # ls))"

text \<open>\<^verbatim>\<open>lines.join('\n')\<close>.\<close>

fun join_nl :: "jsstring list \<Rightarrow> jsstring" where
  "join_nl [] = []"
| "join_nl [l] = l"
| "join_nl (l # ls) = l @ NL # join_nl ls"

text \<open>\<^verbatim>\<open>s.includes(sub)\<close>.\<close>

fun js_includes :: "jsstring \<Rightarrow> jsstring \<Rightarrow> bool" where
  "js_includes [] sub = (sub = [])"
| "js_includes (c # cs) sub = (prefix sub (c # cs) \<or> js_includes cs sub)"

section \<open>Global replacement by a regular expression\<close>

text \<open>
  \<^verbatim>\<open>s.replace(/re/g, rep)\<close> scans the string from the left. A matcher \<open>m\<close> gives, for
  the text at the current position, the text that remains after the match of the
  expression that starts there, or \<open>None\<close> when the expression does not match at this
  position. A match is replaced by \<open>rep\<close> and the scan goes on behind it; otherwise the
  character is kept and the scan moves one character on. None of the expressions of the
  scripts matches the empty string; the test on the lengths only makes the recursion
  well-founded for every \<open>m\<close>.
\<close>

function replace_all :: "(jsstring \<Rightarrow> jsstring option) \<Rightarrow> jsstring \<Rightarrow> jsstring \<Rightarrow> jsstring" where
  "replace_all m rep [] = []"
| "replace_all m rep (c # cs) =
     (case m (c # cs) of
        Some r \<Rightarrow>
          (if length r \<le> length cs then rep @ replace_all m rep r
           else c # replace_all m rep cs)
      | None \<Rightarrow> c # replace_all m rep cs)"
  by pat_completeness auto
termination
  by (relation "measure (\<lambda>(m, rep, s). length s)") auto

section \<open>Title normalisation (src/song/index.js, cleanSongTitle)\<close>

text \<open>
  The lazy \<^verbatim>\<open>.*?\<close> followed by the closing bracket: the text behind the first closing
  bracket, provided no line terminator comes before it.
\<close>

fun after_close :: "jschar \<Rightarrow> jsstring \<Rightarrow> jsstring option" where
  "after_close cl [] = None"
| "after_close cl (c # cs) =
     (if c = cl then Some cs
      else if isLineTerminator c then None
      else after_close cl cs)"

text \<open>The expression \<^verbatim>\<open>\(.*?\)|\uFF08.*?\uFF09\<close> (the second alternative with the full-width
  brackets) at the head of the text.\<close>

fun match_bracket :: "jsstring \<Rightarrow> jsstring option" where
  "match_bracket [] = None"
| "match_bracket (c # cs) =
     (if c = LPAREN then after_close RPAREN cs
      else if c = FW_LPAREN then after_close FW_RPAREN cs
      else None)"

definition cleanSongTitle :: "jsstring \<Rightarrow> jsstring" where
  "cleanSongTitle title = trim (replace_all match_bracket [] title)"


section \<open>Timing tags (cleanLyrics)\<close>

text \<open>Regular-expression atoms: one given character, one digit, and the alternative
  the backtracking matcher tries second when the first fails.\<close>

fun lit :: "jschar \<Rightarrow> jsstring \<Rightarrow> jsstring option" where
  "lit a [] = None"
| "lit a (c # cs) = (if c = a then Some cs else None)"

fun digit :: "jsstring \<Rightarrow> jsstring option" where
  "digit [] = None"
| "digit (c # cs) = (if isDigit c then Some cs else None)"

definition orElse :: "'a option \<Rightarrow> 'a option \<Rightarrow> 'a option" where
  "orElse a b = (case a of Some x \<Rightarrow> Some x | None \<Rightarrow> b)"

text \<open>The common head \<^verbatim>\<open>\[\d{2}:\d{2}\<close> of both expressions.\<close>

definition mmss :: "jsstring \<Rightarrow> jsstring option" where
  "mmss s = lit LBRACKET s \<bind> digit \<bind> digit \<bind> lit COLON \<bind> digit \<bind> digit"

text \<open>\<^verbatim>\<open>\.\d{2,3}?\]\<close>: the lazy quantifier tries two digits first, then three.\<close>

definition frac_close :: "jsstring \<Rightarrow> jsstring option" where
  "frac_close s =
     lit DOT s \<bind> digit \<bind> digit \<bind>
       (\<lambda>r. orElse (lit RBRACKET r) (digit r \<bind> lit RBRACKET))"

text \<open>
  src/song/clean_lyrics.js line 19 and the second script of src/song/index.js:
  \<^verbatim>\<open>/\[\d{2}:\d{2}(:\d{2})?\.\d{2,3}?\]/g\<close>. The optional group is greedy: it is tried
  first, and given up when the rest does not match behind it.
\<close>

definition match_tag_colon :: "jsstring \<Rightarrow> jsstring option" where
  "match_tag_colon s =
     mmss s \<bind>
       (\<lambda>r. orElse (lit COLON r \<bind> digit \<bind> digit \<bind> frac_close) (frac_close r))"

text \<open>
  src/song/index.js line 62 and src/dataset/song/clean_existing_lyrics.js line 18:
  \<^verbatim>\<open>/\[\d{2}:\d{2}(\.\d{2,3})?\]/g\<close>. The greedy \<^verbatim>\<open>\d{2,3}\<close> tries three digits first.
\<close>

definition match_tag_frac :: "jsstring \<Rightarrow> jsstring option" where
  "match_tag_frac s =
     mmss s \<bind>
       (\<lambda>r. orElse
          (lit DOT r \<bind> digit \<bind> digit \<bind>
             (\<lambda>r2. orElse (digit r2 \<bind> lit RBRACKET) (lit RBRACKET r2)))
          (lit RBRACKET r))"

text \<open>\<^verbatim>\<open>/\n{3,}/g\<close>: three line feeds and, greedily, every line feed behind them.\<close>

fun match_newlines :: "jsstring \<Rightarrow> jsstring option" where
  "match_newlines (a # b # c # r) =
     (if a = NL \<and> b = NL \<and> c = NL then Some (dropWhile (\<lambda>x. x = NL) r) else None)"
| "match_newlines _ = None"

text \<open>cleanLyrics of src/song/clean_lyrics.js (lines 15-27); the second script of
  src/song/index.js (lines 288-300) has the same body.\<close>

definition cleanLyrics :: "jsstring \<Rightarrow> jsstring" where
  "cleanLyrics lyrics =
     (if lyrics = [] then []
      else join_nl (filter (\<lambda>line. length line > 0)
             (map trim (split_nl (replace_all match_tag_colon [] lyrics)))))"

text \<open>cleanLyrics of the first script of src/song/index.js (lines 58-68);
  src/dataset/song/clean_existing_lyrics.js (lines 14-24) has the same body.\<close>

definition cleanLyrics_index :: "jsstring \<Rightarrow> jsstring" where
  "cleanLyrics_index lyrics =
     (if lyrics = [] then []
      else replace_all match_newlines [NL, NL] (trim (replace_all match_tag_frac [] lyrics)))"















section \<open>JavaScript values and exceptions\<close>

text \<open>
  The values the scripts handle: what \<^verbatim>\<open>JSON.parse\<close> returns, the track descriptors of
  the catalogue client, and \<^verbatim>\<open>undefined\<close> for a property that is not there. An object
  is the list of its own properties in insertion order. Floating point is not modelled:
  a number is its value, and nothing below computes with it.
\<close>

datatype jsval =
    Undefined
  | Null
  | Bool bool
  | Num real
  | Str jsstring
  | Arr "jsval list"
  | Obj "(jsstring \<times> jsval) list"

datatype error = TypeError | SyntaxError

definition bindE :: "error + 'a \<Rightarrow> ('a \<Rightarrow> error + 'b) \<Rightarrow> error + 'b" where
  "bindE x f = (case x of Inl e \<Rightarrow> Inl e | Inr v \<Rightarrow> f v)"

text \<open>ToBoolean.\<close>

fun truthy :: "jsval \<Rightarrow> bool" where
  "truthy Undefined = False"
| "truthy Null = False"
| "truthy (Bool b) = b"
| "truthy (Num x) = (x \<noteq> 0)"
| "truthy (Str s) = (s \<noteq> [])"
| "truthy (Arr xs) = True"
| "truthy (Obj kvs) = True"

text \<open>\<^verbatim>\<open>typeof item === 'string'\<close> and \<^verbatim>\<open>Array.isArray\<close>.\<close>

fun is_string :: "jsval \<Rightarrow> bool" where
  "is_string (Str s) = True"
| "is_string _ = False"

fun isArray :: "jsval \<Rightarrow> bool" where
  "isArray (Arr xs) = True"
| "isArray _ = False"

text \<open>
  Reading one of the properties the scripts name (\<^verbatim>\<open>lyrics\<close>, \<^verbatim>\<open>p_masters\<close>,
  \<^verbatim>\<open>song_title\<close>, \<^verbatim>\<open>get\<close>): none of them is a built-in property of an array or a
  primitive, so only an object can have it; reading a property of \<^verbatim>\<open>null\<close> or
  \<^verbatim>\<open>undefined\<close> throws.
\<close>

fun getProp :: "jsval \<Rightarrow> jsstring \<Rightarrow> error + jsval" where
  "getProp Undefined k = Inl TypeError"
| "getProp Null k = Inl TypeError"
| "getProp (Obj kvs) k = Inr (case map_of kvs k of None \<Rightarrow> Undefined | Some v \<Rightarrow> v)"
| "getProp _ k = Inr Undefined"

fun update_first :: "jsstring \<Rightarrow> jsval \<Rightarrow> (jsstring \<times> jsval) list \<Rightarrow> (jsstring \<times> jsval) list" where
  "update_first k v [] = [(k, v)]"
| "update_first k v ((k', v') # kvs) =
     (if k' = k then (k, v) # kvs else (k', v') # update_first k v kvs)"

text \<open>
  Assigning to one of these properties. The scripts are ES modules, hence strict code:
  assigning to a property of a primitive throws. An array takes the named property, which
  is no element of it and no part of its JSON text, so the array is what remains to be
  written.
\<close>

fun setProp :: "jsval \<Rightarrow> jsstring \<Rightarrow> jsval \<Rightarrow> error + jsval" where
  "setProp (Obj kvs) k v = Inr (Obj (update_first k v kvs))"
| "setProp (Arr xs) k v = Inr (Arr xs)"
| "setProp _ k v = Inl TypeError"

text \<open>\<^verbatim>\<open>Array.prototype.flat()\<close>: one level.\<close>

fun flat :: "jsval list \<Rightarrow> jsval list" where
  "flat [] = []"
| "flat (Arr ys # xs) = ys @ flat xs"
| "flat (x # xs) = x # flat xs"

text \<open>
  \<^verbatim>\<open>String(v)\<close>. On a string it is the identity; on any other value it is the platform's
  conversion, taken as the parameter \<open>toStr\<close> (\<open>None\<close> where the conversion throws, as it
  does on an object whose own \<^verbatim>\<open>toString\<close> and \<^verbatim>\<open>valueOf\<close> are not callable).
\<close>

definition String :: "(jsval \<Rightarrow> jsstring option) \<Rightarrow> jsval \<Rightarrow> error + jsstring" where
  "String toStr v =
     (case v of Str s \<Rightarrow> Inr s
      | _ \<Rightarrow> (case toStr v of None \<Rightarrow> Inl TypeError | Some s \<Rightarrow> Inr s))"

section \<open>The producers field\<close>

text \<open>cleanP_masters of src/dataset/song/clean_existing_lyrics.js (lines 27-44).\<close>

definition cleanP_masters :: "(jsval \<Rightarrow> jsstring option) \<Rightarrow> jsval \<Rightarrow> error + jsval list" where
  "cleanP_masters toStr p_masters =
     (if isArray p_masters then
        (case p_masters of Arr xs \<Rightarrow> Inr (filter is_string (flat xs)) | _ \<Rightarrow> Inr [])
      else if is_string p_masters then Inr [p_masters]
      else if truthy p_masters then bindE (String toStr p_masters) (\<lambda>s. Inr [Str s])
      else Inr [])"

text \<open>The p_masters of getSongLyric in the first script of src/song/index.js
  (lines 82-91), from the \<^verbatim>\<open>artist\<close> of the track descriptor.\<close>

definition artist_p_masters :: "(jsval \<Rightarrow> jsstring option) \<Rightarrow> jsval \<Rightarrow> error + jsval list" where
  "artist_p_masters toStr artist =
     (if truthy artist then
        (case artist of
           Arr xs \<Rightarrow> Inr (filter is_string (flat xs))
         | _ \<Rightarrow> bindE (String toStr artist) (\<lambda>s. Inr [Str s]))
      else Inr [])"

text \<open>The values of a producers list are strings, pairwise different, none empty.\<close>

definition producers_invariant :: "jsval list \<Rightarrow> bool" where
  "producers_invariant ps = (list_all is_string ps \<and> distinct ps \<and> Str [] \<notin> set ps)"

section \<open>The batch clean pass (src/dataset/song/clean_existing_lyrics.js)\<close>

text \<open>
  \<^verbatim>\<open>JSON.parse\<close> and \<^verbatim>\<open>JSON.stringify\<close> belong to the platform and are parameters
  of the model: \<open>parse\<close> gives \<open>None\<close> where \<^verbatim>\<open>JSON.parse\<close> throws its SyntaxError.
\<close>

type_synonym json_parse = "jsstring \<Rightarrow> jsval option"
type_synonym json_stringify = "jsval \<Rightarrow> jsstring"

definition k_lyrics :: jsstring where "k_lyrics = js ''lyrics''"
definition k_p_masters :: jsstring where "k_p_masters = js ''p_masters''"
definition k_song_title :: jsstring where "k_song_title = js ''song_title''"

text \<open>Line 62: the lines of the file that are not blank.\<close>

definition storeLines :: "jsstring \<Rightarrow> jsstring list" where
  "storeLines content = filter (\<lambda>line. trim line \<noteq> []) (split_nl content)"

text \<open>Lines 76-81, the body of the \<^verbatim>\<open>try\<close> behind the parse: clean the lyrics when
  there are any, then the producers.\<close>

definition cleanSongData :: "(jsval \<Rightarrow> jsstring option) \<Rightarrow> jsval \<Rightarrow> error + jsval" where
  "cleanSongData toStr songData =
     bindE (getProp songData k_lyrics) (\<lambda>l.
     bindE (if truthy l then
              (case l of
                 Str s \<Rightarrow> setProp songData k_lyrics (Str (cleanLyrics_index s))
               | _ \<Rightarrow> Inl TypeError)
            else Inr songData) (\<lambda>songData1.
     bindE (getProp songData1 k_p_masters) (\<lambda>p.
     bindE (cleanP_masters toStr p) (\<lambda>cleaned.
     setProp songData1 k_p_masters (Arr cleaned)))))"

text \<open>Lines 71-90, one round of the loop: an exception of the parse or of the cleaning
  is caught, and the line is skipped.\<close>

definition processLine :: "json_parse \<Rightarrow> (jsval \<Rightarrow> jsstring option) \<Rightarrow> jsstring \<Rightarrow> error + jsval" where
  "processLine parse toStr line =
     (case parse (trim line) of
        None \<Rightarrow> Inl SyntaxError
      | Some songData \<Rightarrow> cleanSongData toStr songData)"

record clean_counts =
  processedLinesArray :: "jsval list"
  processedLines :: nat
  skippedLines :: nat

definition clean_step :: "json_parse \<Rightarrow> (jsval \<Rightarrow> jsstring option) \<Rightarrow> jsstring \<Rightarrow> clean_counts \<Rightarrow> clean_counts" where
  "clean_step parse toStr line st =
     (case processLine parse toStr line of
        Inr songData \<Rightarrow>
          st\<lparr>processedLinesArray := processedLinesArray st @ [songData],
             processedLines := processedLines st + 1\<rparr>
      | Inl e \<Rightarrow> st\<lparr>skippedLines := skippedLines st + 1\<rparr>)"

text \<open>Lines 56-91: read, split, and run the loop over the lines.\<close>

definition loadAndClean :: "json_parse \<Rightarrow> (jsval \<Rightarrow> jsstring option) \<Rightarrow> jsstring \<Rightarrow> clean_counts" where
  "loadAndClean parse toStr content =
     fold (clean_step parse toStr) (storeLines content)
       \<lparr>processedLinesArray = [], processedLines = 0, skippedLines = 0\<rparr>"

text \<open>Line 99: one JSON text per record, joined by line feeds, and a final line feed.
  Line 81 of src/song/clean_lyrics.js writes its output in the same way.\<close>

definition outputContent :: "json_stringify \<Rightarrow> jsval list \<Rightarrow> jsstring" where
  "outputContent stringify records = join_nl (map stringify records) @ [NL]"

text \<open>
  The files of the script and the calls it makes on the file system, in order. The
  file system is a map from paths to contents; reads and writes are taken to succeed.
\<close>

datatype path = LYRICS_FILE_PATH | TEMP_FILE_PATH

datatype fs_call =
    ExistsSync path
  | ReadFileSync path
  | WriteFileSync path jsstring
  | RenameSync path path

definition cleanExistingLyrics ::
  "json_parse \<Rightarrow> json_stringify \<Rightarrow> (jsval \<Rightarrow> jsstring option) \<Rightarrow> (path \<rightharpoonup> jsstring)
     \<Rightarrow> (path \<rightharpoonup> jsstring) \<times> fs_call list" where
  "cleanExistingLyrics parse stringify toStr fs =
     (case fs LYRICS_FILE_PATH of
        None \<Rightarrow> (fs, [ExistsSync LYRICS_FILE_PATH])
      | Some content \<Rightarrow>
          (let st = loadAndClean parse toStr content;
               out = outputContent stringify (processedLinesArray st)
           in (fs(LYRICS_FILE_PATH \<mapsto> out),
               [ExistsSync LYRICS_FILE_PATH, ReadFileSync LYRICS_FILE_PATH,
                WriteFileSync LYRICS_FILE_PATH out])))"

text \<open>
  What the specification asks of a rewrite: the new contents are written to the
  temporary path, and a later call moves the temporary path onto the store.
\<close>

fun writes_temp_then_swaps :: "fs_call list \<Rightarrow> bool" where
  "writes_temp_then_swaps [] = False"
| "writes_temp_then_swaps (WriteFileSync p c # calls) =
     ((p = TEMP_FILE_PATH \<and> RenameSync TEMP_FILE_PATH LYRICS_FILE_PATH \<in> set calls)
      \<or> writes_temp_then_swaps calls)"
| "writes_temp_then_swaps (call # calls) = writes_temp_then_swaps calls"



section \<open>The lyric filter of src/song/clean_lyrics.js (processJsonlFile)\<close>

definition NOT_FOUND :: jsstring where
  "NOT_FOUND = [26410, 25214, 21040, 27468, 35789]"
definition FETCH_FAILED :: jsstring where
  "FETCH_FAILED = [33719, 21462, 27468, 35789, 22833, 36133]"
definition PURE_MUSIC :: jsstring where
  "PURE_MUSIC = [32431, 38899, 20048, 65292, 35831, 27427, 36175]"

text \<open>
  Lines 46-59 for one parsed line. \<open>Inl\<close>: an exception, caught by the handler of
  the line (line 73), which reports it as a failure to parse; \<open>Inr None\<close>: the line is
  passed over by \<^verbatim>\<open>continue\<close>; \<open>Inr (Some l)\<close>: the cleaned lyrics that are kept.
  Line 46 reads \<^verbatim>\<open>songData.lyrics || songData.get('lyrics', '') || ''\<close>: an object
  parsed from JSON has no method \<^verbatim>\<open>get\<close>, so the call throws whenever the first
  operand is falsy. On line 49 an array has \<^verbatim>\<open>includes\<close> (membership), any other
  value that is not a string has not.
\<close>

definition jsonlLyrics :: "jsval \<Rightarrow> error + jsstring option" where
  "jsonlLyrics songData =
     bindE (getProp songData k_lyrics) (\<lambda>l.
       if \<not> truthy l then Inl TypeError
       else (case l of
           Str lyrics \<Rightarrow>
             if lyrics = NOT_FOUND \<or> js_includes lyrics FETCH_FAILED \<or> lyrics = PURE_MUSIC
             then Inr None
             else (let cleanedLyrics = cleanLyrics lyrics in
                   if trim cleanedLyrics = [] \<or> js_includes cleanedLyrics PURE_MUSIC
                   then Inr None else Inr (Some cleanedLyrics))
         | Arr xs \<Rightarrow> if Str FETCH_FAILED \<in> set xs then Inr None else Inl TypeError
         | _ \<Rightarrow> Inl TypeError))"

section \<open>Ingestion (src/song/index.js)\<close>

text \<open>
  The catalogue client is the environment of a run: \<open>search page\<close> is the parsed list
  of track descriptors of a page (\<open>None\<close> when the call or the parse throws), and
  \<open>lyric id\<close> the parsed answer for a track (\<open>None\<close> likewise). A descriptor has an
  identifier, a name and the artist value. Appending to the lyrics file is taken to
  succeed.
\<close>

record song =
  song_id :: nat
  song_name :: jsstring
  song_artist :: jsval

record lyric_record =
  song_title :: jsstring
  p_masters :: jsval
  lyrics :: jsstring

text \<open>
  The state of a run: the set \<^verbatim>\<open>existingSongs\<close> (a JavaScript Set, in insertion
  order), the records appended to the lyrics file, the tracks for which the lyric
  service was called, and the counters that are reported at the end. The second script
  calls its counters \<^verbatim>\<open>totalSongs\<close> and \<^verbatim>\<open>newSongs\<close>.
\<close>

record ingest_state =
  existingSongs :: "jsstring list"
  lyricsFile :: "lyric_record list"
  lyricCalls :: "song list"
  totalSongsFound :: nat
  totalNewSongsAdded :: nat
  skippedSongs :: nat

definition Set_has :: "'a list \<Rightarrow> 'a \<Rightarrow> bool" where
  "Set_has xs x = (x \<in> set xs)"

definition Set_add :: "'a \<Rightarrow> 'a list \<Rightarrow> 'a list" where
  "Set_add x xs = (if x \<in> set xs then xs else xs @ [x])"

definition k_lyric :: jsstring where "k_lyric = js ''lyric''"

subsection \<open>The first script (lines 1-209)\<close>

text \<open>getSongLyric, lines 71-105: every exception ends in \<^verbatim>\<open>null\<close>.\<close>

definition getSongLyric ::
  "(jsval \<Rightarrow> jsstring option) \<Rightarrow> (nat \<Rightarrow> jsval option) \<Rightarrow> song \<Rightarrow> lyric_record option" where
  "getSongLyric toStr lyric song =
     (case lyric (song_id song) of
        None \<Rightarrow> None
      | Some lyricData \<Rightarrow>
          (case getProp lyricData k_lyric of
             Inl e \<Rightarrow> None
           | Inr l \<Rightarrow>
               if \<not> truthy l then None
               else (case l of
                   Str s \<Rightarrow>
                     if trim s \<noteq> [] \<and> \<not> js_includes s PURE_MUSIC then
                       (case artist_p_masters toStr (song_artist song) of
                          Inl e \<Rightarrow> None
                        | Inr ps \<Rightarrow>
                            Some \<lparr>song_title = song_name song, p_masters = Arr ps,
                                  lyrics = cleanLyrics_index s\<rparr>)
                     else None
                 | _ \<Rightarrow> None)))"

text \<open>writeLyricToFile, lines 108-122.\<close>

definition writeLyricToFile :: "lyric_record \<Rightarrow> ingest_state \<Rightarrow> ingest_state" where
  "writeLyricToFile lyricData st =
     (if lyrics lyricData = [] then st
      else st\<lparr>lyricsFile := lyricsFile st @ [lyricData]\<rparr>)"

text \<open>Lines 162-181, one round of the loop over the new songs of a page.\<close>

definition process_song ::
  "(jsval \<Rightarrow> jsstring option) \<Rightarrow> (nat \<Rightarrow> jsval option) \<Rightarrow> song \<Rightarrow> ingest_state \<Rightarrow> ingest_state" where
  "process_song toStr lyric song st =
     (let st1 = st\<lparr>lyricCalls := lyricCalls st @ [song]\<rparr>;
          st2 = (case getSongLyric toStr lyric song of
                   Some lyricData \<Rightarrow>
                     (writeLyricToFile lyricData st1)
                       \<lparr>totalNewSongsAdded := totalNewSongsAdded st1 + 1\<rparr>
                 | None \<Rightarrow> st1)
      in st2\<lparr>existingSongs := Set_add (cleanSongTitle (song_name song)) (existingSongs st2)\<rparr>)"

text \<open>Lines 146-185, one page: the new songs are filtered out of the page first, then
  processed one by one.\<close>

definition process_page ::
  "(jsval \<Rightarrow> jsstring option) \<Rightarrow> (nat \<Rightarrow> song list option) \<Rightarrow> (nat \<Rightarrow> jsval option) \<Rightarrow> nat
     \<Rightarrow> ingest_state \<Rightarrow> ingest_state" where
  "process_page toStr search lyric page st =
     (case search page of
        None \<Rightarrow> st
      | Some songs \<Rightarrow>
          (let st1 = st\<lparr>totalSongsFound := totalSongsFound st + length songs\<rparr>;
               newSongs = filter (\<lambda>song. \<not> Set_has (existingSongs st)
                                     (cleanSongTitle (song_name song))) songs
           in fold (process_song toStr lyric) newSongs st1))"

text \<open>Lines 143-186, the loop over a list of pages, and searchLuoTianyiSongs from the
  state it has loaded.\<close>

definition run_pages ::
  "(jsval \<Rightarrow> jsstring option) \<Rightarrow> (nat \<Rightarrow> song list option) \<Rightarrow> (nat \<Rightarrow> jsval option) \<Rightarrow> nat list
     \<Rightarrow> ingest_state \<Rightarrow> ingest_state" where
  "run_pages toStr search lyric pages st = fold (process_page toStr search lyric) pages st"

definition searchLuoTianyiSongs ::
  "(jsval \<Rightarrow> jsstring option) \<Rightarrow> (nat \<Rightarrow> song list option) \<Rightarrow> (nat \<Rightarrow> jsval option) \<Rightarrow> nat \<Rightarrow> nat
     \<Rightarrow> ingest_state \<Rightarrow> ingest_state" where
  "searchLuoTianyiSongs toStr search lyric initialPage pageCount st =
     run_pages toStr search lyric [initialPage ..< initialPage + pageCount] st"

subsection \<open>The second script (lines 210-400)\<close>

datatype lyric_result = Success jsstring | Failure

text \<open>getSongLyric, lines 263-285.\<close>

definition getSongLyric2 :: "(nat \<Rightarrow> jsval option) \<Rightarrow> song \<Rightarrow> lyric_result" where
  "getSongLyric2 lyric song =
     (case lyric (song_id song) of
        None \<Rightarrow> Failure
      | Some lyricData \<Rightarrow>
          (case getProp lyricData k_lyric of
             Inl e \<Rightarrow> Failure
           | Inr l \<Rightarrow>
               if \<not> truthy l then Failure
               else (case l of
                   Str s \<Rightarrow> if trim s \<noteq> [] then Success s else Failure
                 | _ \<Rightarrow> Failure)))"

text \<open>Lines 331-376, one round of the loop over the search results; the key is the
  title as it is.\<close>

definition process_song2 :: "(nat \<Rightarrow> jsval option) \<Rightarrow> song \<Rightarrow> ingest_state \<Rightarrow> ingest_state" where
  "process_song2 lyric song st =
     (if Set_has (existingSongs st) (song_name song) then
        st\<lparr>skippedSongs := skippedSongs st + 1\<rparr>
      else
        (let st1 = st\<lparr>lyricCalls := lyricCalls st @ [song]\<rparr> in
         case getSongLyric2 lyric song of
           Success l \<Rightarrow>
             (let cleanedLyric = cleanLyrics l in
              if js_includes cleanedLyric PURE_MUSIC then st1
              else st1\<lparr>lyricsFile := lyricsFile st1 @
                          [\<lparr>song_title = song_name song, p_masters = song_artist song,
                            lyrics = cleanedLyric\<rparr>],
                        totalNewSongsAdded := totalNewSongsAdded st1 + 1,
                        existingSongs := Set_add (song_name song) (existingSongs st1)\<rparr>)
         | Failure \<Rightarrow> st1))"

text \<open>Lines 318-380, one page, and lines 315-381, the loop over the pages.\<close>

definition process_page2 ::
  "(nat \<Rightarrow> song list option) \<Rightarrow> (nat \<Rightarrow> jsval option) \<Rightarrow> nat \<Rightarrow> ingest_state \<Rightarrow> ingest_state" where
  "process_page2 search lyric page st =
     (case search page of
        None \<Rightarrow> st
      | Some songs \<Rightarrow>
          if songs = [] then st
          else fold (process_song2 lyric) songs
                 (st\<lparr>totalSongsFound := totalSongsFound st + length songs\<rparr>))"

definition run_pages2 ::
  "(nat \<Rightarrow> song list option) \<Rightarrow> (nat \<Rightarrow> jsval option) \<Rightarrow> nat list \<Rightarrow> ingest_state \<Rightarrow> ingest_state" where
  "run_pages2 search lyric pages st = fold (process_page2 search lyric) pages st"

definition searchLuoTianyiSongs2 ::
  "(nat \<Rightarrow> song list option) \<Rightarrow> (nat \<Rightarrow> jsval option) \<Rightarrow> nat \<Rightarrow> nat \<Rightarrow> ingest_state \<Rightarrow> ingest_state" where
  "searchLuoTianyiSongs2 search lyric initialPage pageCount st =
     run_pages2 search lyric [initialPage ..< initialPage + pageCount] st"

subsection \<open>What a part of a run has added\<close>

definition appended :: "ingest_state \<Rightarrow> ingest_state \<Rightarrow> lyric_record list" where
  "appended st st' = drop (length (lyricsFile st)) (lyricsFile st')"

definition called :: "ingest_state \<Rightarrow> ingest_state \<Rightarrow> song list" where
  "called st st' = drop (length (lyricCalls st)) (lyricCalls st')"

definition normalized_titles :: "lyric_record list \<Rightarrow> jsstring list" where
  "normalized_titles rs = map (\<lambda>r. cleanSongTitle (song_title r)) rs"

section \<open>The metadata extractor\<close>

text \<open>
  Modelled from the spec: the metadata extractor \<^verbatim>\<open>extract\<close> (section 4.3). Its code,
  the script \<^verbatim>\<open>clean_data.py\<close> that the README names, is not among the sources. The
  role vocabulary is the nine terms of the data model; a credit line begins with a role,
  then, with optional white space around it, a half-width or full-width colon, then the
  name, which is the rest of the line.
\<close>

definition FW_COLON :: jschar where "FW_COLON = 65306"

definition roles :: "jsstring list" where
  "roles =
     [[20316, 35789], [20316, 26354], [32534, 26354], [21046, 20316, 20154],
      [28151, 38899], [27597, 24102], [32654, 24037],
      [37197, 21809, 21046, 20316, 20154], [30417, 21046]]"

definition credit_of :: "jsstring \<Rightarrow> (jsstring \<times> jsstring) option" where
  "credit_of line =
     (case filter (\<lambda>r. prefix r line) roles of
        [] \<Rightarrow> None
      | r # _ \<Rightarrow>
          (case dropWhile isWhiteSpace (drop (length r) line) of
             [] \<Rightarrow> None
           | c # rest \<Rightarrow>
               if c = COLON \<or> c = FW_COLON then Some (r, dropWhile isWhiteSpace rest)
               else None))"

text \<open>Modelled from the spec: the scan over the line sequence. The matching lines are
  removed and their role and name recorded, a later line overwriting an earlier one;
  the other lines, in order, are the residual lyrics.\<close>

definition residual_lines :: "jsstring list \<Rightarrow> jsstring list" where
  "residual_lines ls = filter (\<lambda>l. credit_of l = None) ls"

definition credit_lines :: "jsstring list \<Rightarrow> jsstring list" where
  "credit_lines ls = filter (\<lambda>l. credit_of l \<noteq> None) ls"

definition record_credit :: "jsstring \<Rightarrow> (jsstring \<rightharpoonup> jsstring) \<Rightarrow> (jsstring \<rightharpoonup> jsstring)" where
  "record_credit l m = (case credit_of l of None \<Rightarrow> m | Some (r, n) \<Rightarrow> m(r \<mapsto> n))"

definition metadataMap :: "jsstring list \<Rightarrow> (jsstring \<rightharpoonup> jsstring)" where
  "metadataMap ls = fold record_credit ls Map.empty"

definition extract_md :: "jsstring \<Rightarrow> jsstring \<times> (jsstring \<rightharpoonup> jsstring)" where
  "extract_md cleanedText =
     (join_nl (residual_lines (split_nl cleanedText)), metadataMap (split_nl cleanedText))"

section \<open>Sample data for the examples\<close>

text \<open>
  The JSON text \<^verbatim>\<open>{"p_masters":[]}\<close> and the value it denotes, with instances of the
  two platform functions that agree with \<^verbatim>\<open>JSON.parse\<close> and \<^verbatim>\<open>JSON.stringify\<close> on
  the texts and values of the examples: this text, this value, and the text
  \<^verbatim>\<open>oops\<close>, which is no JSON.
\<close>

definition sample_text :: jsstring where
  "sample_text = [123, 34] @ js ''p_masters'' @ [34, 58, 91, 93, 125]"

definition sample_record :: jsval where
  "sample_record = Obj [(k_p_masters, Arr [])]"

definition sample_parse :: json_parse where
  "sample_parse s = (if s = sample_text then Some sample_record else None)"

definition sample_stringify :: json_stringify where
  "sample_stringify v = (if v = sample_record then sample_text else js ''null'')"

text \<open>A store file of three valid lines and, second, one line that is no JSON.\<close>

definition sample_store :: jsstring where
  "sample_store =
     sample_text @ [NL] @ js ''oops'' @ [NL] @ sample_text @ [NL] @ sample_text @ [NL]"

text \<open>The state of a run that starts with no known title.\<close>

definition empty_state :: ingest_state where
  "empty_state =
     \<lparr>existingSongs = [], lyricsFile = [], lyricCalls = [],
      totalSongsFound = 0, totalNewSongsAdded = 0, skippedSongs = 0\<rparr>"

text \<open>
  The cleaned text of the first scenario of the specification: a lyricist line
  (\<^verbatim>\<open>U+4F5C U+8BCD\<close>, full-width colon, \<^verbatim>\<open>A\<close>), a composer line
  (\<^verbatim>\<open>U+4F5C U+66F2\<close>, full-width colon, \<^verbatim>\<open>B\<close>) and two lines of lyrics.
\<close>

definition scenario1_lines :: "jsstring list" where
  "scenario1_lines =
     [[20316, 35789, 65306, 65], [20316, 26354, 65306, 66],
      [31532, 19968, 34892, 27468, 35789], [31532, 20108, 34892, 27468, 35789]]"

definition scenario1_cleaned :: jsstring where
  "scenario1_cleaned = join_nl scenario1_lines"

text \<open>
  Two track descriptors whose titles differ by a bracketed suffix, \<^verbatim>\<open>x\<close> and
  \<^verbatim>\<open>x (Live)\<close>; a catalogue whose first page lists both and one whose first page
  lists the first track twice; a lyric service that answers every request with the
  lyrics \<^verbatim>\<open>la\<close>, and one that fails on every request.
\<close>

definition song_x :: song where
  "song_x = \<lparr>song_id = 1, song_name = js ''x'', song_artist = Str (js ''a'')\<rparr>"

definition song_x_live :: song where
  "song_x_live = \<lparr>song_id = 2, song_name = js ''x (Live)'', song_artist = Str (js ''a'')\<rparr>"

definition search_both :: "nat \<Rightarrow> song list option" where
  "search_both page = (if page = 1 then Some [song_x, song_x_live] else None)"

definition search_twice :: "nat \<Rightarrow> song list option" where
  "search_twice page = (if page = 1 then Some [song_x, song_x] else None)"

definition lyric_la :: "nat \<Rightarrow> jsval option" where
  "lyric_la i = Some (Obj [(k_lyric, Str (js ''la''))])"

definition lyric_fails :: "nat \<Rightarrow> jsval option" where
  "lyric_fails i = None"

text \<open>A lyric service whose answer is a lone timing tag, and a catalogue of one track.\<close>

definition lyric_tag_only :: "nat \<Rightarrow> jsval option" where
  "lyric_tag_only i = Some (Obj [(k_lyric, Str (js ''[00:01.00]''))])"

definition search_one :: "nat \<Rightarrow> song list option" where
  "search_one page = (if page = 1 then Some [song_x] else None)"

text \<open>The state of a run that starts with the title \<^verbatim>\<open>x\<close> already known.\<close>

definition known_x_state :: ingest_state where
  "known_x_state = empty_state\<lparr>existingSongs := [js ''x'']\<rparr>"









section \<open>Properties of the string functions\<close>










lemma not_LT_brackets [simp]:
  "\<not> isLineTerminator RPAREN" "\<not> isLineTerminator FW_RPAREN"
  "\<not> isLineTerminator LPAREN" "\<not> isLineTerminator FW_LPAREN"
  by (simp_all add: isLineTerminator_def RPAREN_def FW_RPAREN_def LPAREN_def FW_LPAREN_def)





















section \<open>Timing tags are removed\<close>









lemma not_digit [simp]:
  "\<not> isDigit LBRACKET" "\<not> isDigit RBRACKET" "\<not> isDigit COLON" "\<not> isDigit DOT" "\<not> isDigit NL"
  by (simp_all add: isDigit_def LBRACKET_def RBRACKET_def COLON_def DOT_def NL_def)

lemma tag_chars_distinct [simp]:
  "DOT \<noteq> COLON" "COLON \<noteq> DOT" "DOT \<noteq> RBRACKET" "RBRACKET \<noteq> DOT" "COLON \<noteq> RBRACKET"
  "RBRACKET \<noteq> COLON" "LBRACKET \<noteq> NL" "RBRACKET \<noteq> NL" "COLON \<noteq> NL" "DOT \<noteq> NL"
  "RBRACKET \<noteq> LBRACKET"
  by (simp_all add: LBRACKET_def RBRACKET_def COLON_def DOT_def NL_def)









































section \<open>The producers are a flat list of strings\<close>

lemma flat_filter_strings: "list_all is_string (filter is_string xs)"
  by (simp add: list_all_iff)

lemma cleanP_masters_strings: "cleanP_masters toStr v = Inr ps \<Longrightarrow> list_all is_string ps"
  by (cases v) (auto simp: cleanP_masters_def String_def bindE_def list_all_iff split: option.splits if_splits)

lemma artist_p_masters_strings: "artist_p_masters toStr v = Inr ps \<Longrightarrow> list_all is_string ps"
  by (cases v) (auto simp: artist_p_masters_def String_def bindE_def list_all_iff split: option.splits if_splits)

text \<open>
  Claim C4, as amended. The producers that getSongLyric of the first ingestion script
  and the batch clean pass compute are a flat sequence of strings: for an array, the
  strings among its elements and among the elements of its member arrays (one level),
  in their order; for a single string, that string alone (the ingestion script takes the
  empty string for no artist). Nothing is said about duplicates and empty strings.
\<close>

theorem p_masters_strings:
  "(cleanP_masters toStr v = Inr ps \<longrightarrow> list_all is_string ps)
   \<and> (artist_p_masters toStr v = Inr ps \<longrightarrow> list_all is_string ps)
   \<and> cleanP_masters toStr (Arr xs) = Inr (filter is_string (flat xs))
   \<and> artist_p_masters toStr (Arr xs) = Inr (filter is_string (flat xs))
   \<and> cleanP_masters toStr (Str s) = Inr [Str s]
   \<and> (s \<noteq> [] \<longrightarrow> artist_p_masters toStr (Str s) = Inr [Str s])
   \<and> artist_p_masters toStr (Str []) = Inr []"
  using cleanP_masters_strings[of toStr v ps] artist_p_masters_strings[of toStr v ps]
  by (simp add: cleanP_masters_def artist_p_masters_def String_def bindE_def)

text \<open>The theorem at a nested array with a number in it, and at a single string.\<close>

theorem p_masters_strings_witness:
  "cleanP_masters (\<lambda>v. None) (Arr [Arr [Str (js ''a''), Num 1], Str (js ''b'')]) = Inr [Str (js ''a''), Str (js ''b'')]
   \<and> list_all is_string [Str (js ''a''), Str (js ''b'')]
   \<and> artist_p_masters (\<lambda>v. None) (Arr [Arr [Str (js ''a''), Num 1], Str (js ''b'')]) = Inr [Str (js ''a''), Str (js ''b'')]
   \<and> js ''a'' \<noteq> [] \<and> artist_p_masters (\<lambda>v. None) (Str (js ''a'')) = Inr [Str (js ''a'')]"
proof -
  have a: "cleanP_masters (\<lambda>v. None) (Arr [Arr [Str (js ''a''), Num 1], Str (js ''b'')]) = Inr [Str (js ''a''), Str (js ''b'')]"
    by (simp add: cleanP_masters_def)
  have b: "artist_p_masters (\<lambda>v. None) (Arr [Arr [Str (js ''a''), Num 1], Str (js ''b'')]) = Inr [Str (js ''a''), Str (js ''b'')]"
    by (simp add: artist_p_masters_def)
  have c: "js ''a'' \<noteq> []" by (simp add: js_def)
  from a b c p_masters_strings[of "\<lambda>v. None" "Arr [Arr [Str (js ''a''), Num 1], Str (js ''b'')]" "[Str (js ''a''), Str (js ''b'')]" "[]" "js ''a''"]
  show ?thesis by blast
qed

text \<open>
  Claim C4 as stated fails: a name that the descriptor lists twice stays twice in the
  producers, and an empty string stays in them, both at ingestion and in the batch pass.
\<close>

theorem p_masters_keeps_duplicates:
  "\<not> producers_invariant [Str (js ''a''), Str (js ''a'')]
   \<and> cleanP_masters (\<lambda>v. None) (Arr [Str (js ''a''), Str (js ''a'')]) = Inr [Str (js ''a''), Str (js ''a'')]
   \<and> artist_p_masters (\<lambda>v. None) (Arr [Str (js ''a''), Str (js ''a'')]) = Inr [Str (js ''a''), Str (js ''a'')]
   \<and> \<not> producers_invariant [Str []]
   \<and> cleanP_masters (\<lambda>v. None) (Arr [Str []]) = Inr [Str []]
   \<and> artist_p_masters (\<lambda>v. None) (Arr [Str []]) = Inr [Str []]"
  by (simp add: producers_invariant_def cleanP_masters_def artist_p_masters_def)

section \<open>The rewrite of the store\<close>

text \<open>
  Claim C2, as amended. The batch pass writes the new contents straight to the store
  file: on an existing store its calls on the file system are the test for existence,
  one read of the store and one write of the complete new contents to the store path;
  when the write has returned the store holds exactly these contents. The temporary
  path is left as it was, and no call moves a file onto the store. (What a reader sees
  while the one write is under way is not part of the model.)
\<close>

theorem rewrite_is_direct:
  "(fs LYRICS_FILE_PATH = Some content \<longrightarrow>
      snd (cleanExistingLyrics parse stringify toStr fs) =
        [ExistsSync LYRICS_FILE_PATH, ReadFileSync LYRICS_FILE_PATH,
         WriteFileSync LYRICS_FILE_PATH
           (outputContent stringify (processedLinesArray (loadAndClean parse toStr content)))]
      \<and> fst (cleanExistingLyrics parse stringify toStr fs) LYRICS_FILE_PATH =
          Some (outputContent stringify (processedLinesArray (loadAndClean parse toStr content))))
   \<and> fst (cleanExistingLyrics parse stringify toStr fs) TEMP_FILE_PATH = fs TEMP_FILE_PATH
   \<and> \<not> writes_temp_then_swaps (snd (cleanExistingLyrics parse stringify toStr fs))"
  by (cases "fs LYRICS_FILE_PATH") (simp_all add: cleanExistingLyrics_def Let_def)

lemmas store_eval = loadAndClean_def storeLines_def clean_step_def processLine_def cleanSongData_def
  cleanP_masters_def bindE_def js_def NL_def trim_def isWhiteSpace_def isLineTerminator_def
  k_lyrics_def k_p_masters_def sample_text_def sample_record_def sample_parse_def
  sample_stringify_def sample_store_def outputContent_def

lemma sample_load:
  "loadAndClean sample_parse (\<lambda>v. None) sample_store =
     \<lparr>processedLinesArray = [sample_record, sample_record, sample_record],
      processedLines = 3, skippedLines = 1\<rparr>"
  by (simp add: store_eval)

lemma sample_output:
  "outputContent sample_stringify [sample_record, sample_record, sample_record] =
     sample_text @ [NL] @ sample_text @ [NL] @ sample_text @ [NL]"
  by (simp add: store_eval)

text \<open>The theorem at the sample store of three valid lines and one malformed line.\<close>

theorem rewrite_is_direct_witness:
  "[LYRICS_FILE_PATH \<mapsto> sample_store] LYRICS_FILE_PATH = Some sample_store
   \<and> snd (cleanExistingLyrics sample_parse sample_stringify (\<lambda>v. None) [LYRICS_FILE_PATH \<mapsto> sample_store]) =
        [ExistsSync LYRICS_FILE_PATH, ReadFileSync LYRICS_FILE_PATH,
         WriteFileSync LYRICS_FILE_PATH (sample_text @ [NL] @ sample_text @ [NL] @ sample_text @ [NL])]
   \<and> fst (cleanExistingLyrics sample_parse sample_stringify (\<lambda>v. None) [LYRICS_FILE_PATH \<mapsto> sample_store])
        LYRICS_FILE_PATH = Some (sample_text @ [NL] @ sample_text @ [NL] @ sample_text @ [NL])"
proof -
  have h: "[LYRICS_FILE_PATH \<mapsto> sample_store] LYRICS_FILE_PATH = Some sample_store" by simp
  from h rewrite_is_direct[of "[LYRICS_FILE_PATH \<mapsto> sample_store]" sample_store sample_parse
      sample_stringify "\<lambda>v. None"]
  show ?thesis by (simp add: sample_load sample_output)
qed

text \<open>
  Claim C2 as stated fails: on the sample store the pass makes no write to the temporary
  path followed by a move onto the store, and no temporary file exists afterwards. The
  constant \<^verbatim>\<open>TEMP_FILE_PATH\<close> of the script is never used.
\<close>

theorem rewrite_writes_no_temp:
  "\<not> writes_temp_then_swaps
       (snd (cleanExistingLyrics sample_parse sample_stringify (\<lambda>v. None) [LYRICS_FILE_PATH \<mapsto> sample_store]))
   \<and> fst (cleanExistingLyrics sample_parse sample_stringify (\<lambda>v. None) [LYRICS_FILE_PATH \<mapsto> sample_store])
        TEMP_FILE_PATH = None"
  by (simp add: cleanExistingLyrics_def Let_def)

section \<open>Loading the store\<close>














section \<open>The store round trip\<close>
















section \<open>The metadata extractor\<close>

lemma fold_record_credit_other:
  "list_all (\<lambda>l. map_option fst (credit_of l) \<noteq> Some r) ls \<Longrightarrow> fold record_credit ls m r = m r"
proof (induction ls arbitrary: m)
  case Nil
  then show ?case by simp
next
  case (Cons l ls)
  then have "fold record_credit ls (record_credit l m) r = record_credit l m r" by simp
  moreover from Cons.prems have "record_credit l m r = m r"
    by (cases "credit_of l") (auto simp: record_credit_def)
  ultimately show ?case by simp
qed

lemma metadataMap_last:
  assumes "ls = before @ l # after" and "credit_of l = Some (r, n)"
    and "list_all (\<lambda>l'. map_option fst (credit_of l') \<noteq> Some r) after"
  shows "metadataMap ls r = Some n"
proof -
  have "metadataMap ls = fold record_credit after (record_credit l (fold record_credit before Map.empty))"
    by (simp add: metadataMap_def assms(1))
  then have "metadataMap ls r = record_credit l (fold record_credit before Map.empty) r"
    using fold_record_credit_other[OF assms(3)] by simp
  with assms(2) show ?thesis by (simp add: record_credit_def)
qed

lemma mset_filter_partition: "mset (filter P xs) + mset (filter (\<lambda>x. \<not> P x) xs) = mset xs"
  by (induction xs) auto

text \<open>
  Claim C7, as amended (on the extractor as modelled from the specification). The input
  line sequence is an interleaving of the residual lines and the removed credit lines,
  each of the two in its original order; so the two together hold exactly the lines of
  the input, with their multiplicities, and the residual lyrics are the residual lines
  joined again. When a role is credited on several lines, the map holds the name of the
  last of them.
\<close>

theorem extract_partition:
  "split_nl text \<in> shuffles (residual_lines (split_nl text)) (credit_lines (split_nl text))
   \<and> mset (residual_lines (split_nl text)) + mset (credit_lines (split_nl text)) = mset (split_nl text)
   \<and> fst (extract_md text) = join_nl (residual_lines (split_nl text))
   \<and> (split_nl text = before @ l # after \<and> credit_of l = Some (r, n)
        \<and> list_all (\<lambda>l'. map_option fst (credit_of l') \<noteq> Some r) after
       \<longrightarrow> snd (extract_md text) r = Some n)"
proof -
  have a: "split_nl text \<in> shuffles (residual_lines (split_nl text)) (credit_lines (split_nl text))"
    unfolding residual_lines_def credit_lines_def by (rule partition_in_shuffles)
  have b: "mset (residual_lines (split_nl text)) + mset (credit_lines (split_nl text)) = mset (split_nl text)"
    unfolding residual_lines_def credit_lines_def by (rule mset_filter_partition)
  have c: "fst (extract_md text) = join_nl (residual_lines (split_nl text))"
    by (simp add: extract_md_def)
  have d: "snd (extract_md text) r = Some n"
    if "split_nl text = before @ l # after" "credit_of l = Some (r, n)"
      "list_all (\<lambda>l'. map_option fst (credit_of l') \<noteq> Some r) after"
    using metadataMap_last[OF that] by (simp add: extract_md_def)
  from a b c d show ?thesis by blast
qed

lemmas credit_eval = credit_of_def roles_def COLON_def FW_COLON_def isWhiteSpace_def
  isLineTerminator_def scenario1_lines_def scenario1_cleaned_def NL_def residual_lines_def
  credit_lines_def

lemma scenario1_split: "split_nl scenario1_cleaned = scenario1_lines"
  by (simp add: scenario1_cleaned_def scenario1_lines_def NL_def)

lemma credit1: "credit_of [20316, 35789, 65306, 65] = Some ([20316, 35789], [65])"
  by (simp add: credit_eval)
lemma credit2: "credit_of [20316, 26354, 65306, 66] = Some ([20316, 26354], [66])"
  by (simp add: credit_eval)
lemma credit3: "credit_of [31532, 19968, 34892, 27468, 35789] = None"
  by (simp add: credit_eval)
lemma credit4: "credit_of [31532, 20108, 34892, 27468, 35789] = None"
  by (simp add: credit_eval)

lemma credit5: "credit_of [20316, 35789, 65306, 66] = Some ([20316, 35789], [66])"
  by (simp add: credit_eval)

text \<open>The theorem at a text of two lyricist lines, crediting \<^verbatim>\<open>A\<close> and then
  \<^verbatim>\<open>B\<close>: the map holds \<^verbatim>\<open>B\<close>.\<close>

theorem extract_partition_witness:
  "split_nl [20316, 35789, 65306, 65, 10, 20316, 35789, 65306, 66]
     = [[20316, 35789, 65306, 65]] @ [20316, 35789, 65306, 66] # []
   \<and> credit_of [20316, 35789, 65306, 66] = Some ([20316, 35789], [66])
   \<and> list_all (\<lambda>l'. map_option fst (credit_of l') \<noteq> Some [20316, 35789]) []
   \<and> snd (extract_md [20316, 35789, 65306, 65, 10, 20316, 35789, 65306, 66]) [20316, 35789]
       = Some [66]"
proof -
  have h1: "split_nl [20316, 35789, 65306, 65, 10, 20316, 35789, 65306, 66]
     = [[20316, 35789, 65306, 65]] @ [20316, 35789, 65306, 66] # []"
    by (simp add: NL_def)
  have h3: "list_all (\<lambda>l'. map_option fst (credit_of l') \<noteq> Some [20316, 35789]) []"
    by simp
  from h1 credit5 h3
    extract_partition[of "[20316, 35789, 65306, 65, 10, 20316, 35789, 65306, 66]"
      "[[20316, 35789, 65306, 65]]" "[20316, 35789, 65306, 66]" "[]" "[20316, 35789]" "[66]"]
  show ?thesis by blast
qed

text \<open>
  Claim C7 as stated fails: in the first scenario of the specification the credit lines
  come first, so the residual lines followed by the removed lines are not the input
  sequence.
\<close>

theorem extract_not_concatenation:
  "residual_lines (split_nl scenario1_cleaned) @ credit_lines (split_nl scenario1_cleaned)
     \<noteq> split_nl scenario1_cleaned"
  by (simp add: scenario1_split) (simp add: scenario1_lines_def residual_lines_def credit_lines_def credit1 credit2 credit3 credit4)

section \<open>Ingestion: what a run fetches and appends\<close>

subsection \<open>The first script\<close>

lemma getSongLyric_title: "getSongLyric toStr lyric song = Some d \<Longrightarrow> song_title d = song_name song"
  by (auto simp: getSongLyric_def split: option.splits sum.splits if_splits jsval.splits)

lemma process_song_calls: "lyricCalls (process_song toStr lyric song st) = lyricCalls st @ [song]"
  by (simp add: process_song_def Let_def writeLyricToFile_def split: option.splits)

lemma process_song_existing:
  "set (existingSongs (process_song toStr lyric song st))
     = insert (cleanSongTitle (song_name song)) (set (existingSongs st))"
  by (auto simp: process_song_def Let_def writeLyricToFile_def Set_add_def split: option.splits)

lemma process_song_distinct:
  "distinct (existingSongs st) \<Longrightarrow> distinct (existingSongs (process_song toStr lyric song st))"
  by (auto simp: process_song_def Let_def writeLyricToFile_def Set_add_def split: option.splits)

lemma process_song_file:
  "\<exists>new. lyricsFile (process_song toStr lyric song st) = lyricsFile st @ new
         \<and> set (map song_title new) \<subseteq> {song_name song}"
proof (cases "getSongLyric toStr lyric song")
  case None
  then show ?thesis by (simp add: process_song_def Let_def)
next
  case (Some d)
  then have t: "song_title d = song_name song" by (rule getSongLyric_title)
  show ?thesis
  proof (cases "lyrics d = []")
    case True
    with Some show ?thesis by (simp add: process_song_def Let_def writeLyricToFile_def)
  next
    case False
    with Some have "lyricsFile (process_song toStr lyric song st) = lyricsFile st @ [d]"
      by (simp add: process_song_def Let_def writeLyricToFile_def)
    with t show ?thesis by simp
  qed
qed

lemma fold_process_song_calls:
  "lyricCalls (fold (process_song toStr lyric) songs st) = lyricCalls st @ songs"
  by (induction songs arbitrary: st) (simp_all add: process_song_calls)

lemma fold_process_song_existing:
  "set (existingSongs (fold (process_song toStr lyric) songs st))
     = set (existingSongs st) \<union> (\<lambda>s. cleanSongTitle (song_name s)) ` set songs"
  by (induction songs arbitrary: st) (auto simp: process_song_existing)

lemma fold_process_song_distinct:
  "distinct (existingSongs st) \<Longrightarrow> distinct (existingSongs (fold (process_song toStr lyric) songs st))"
  by (induction songs arbitrary: st) (simp_all add: process_song_distinct)

lemma fold_process_song_file:
  "\<exists>new. lyricsFile (fold (process_song toStr lyric) songs st) = lyricsFile st @ new
         \<and> set (map song_title new) \<subseteq> song_name ` set songs"
proof (induction songs arbitrary: st)
  case Nil
  then show ?case by simp
next
  case (Cons s songs)
  obtain n1 where n1: "lyricsFile (process_song toStr lyric s st) = lyricsFile st @ n1"
    "set (map song_title n1) \<subseteq> {song_name s}"
    using process_song_file by blast
  obtain n2 where n2: "lyricsFile (fold (process_song toStr lyric) songs (process_song toStr lyric s st))
      = lyricsFile (process_song toStr lyric s st) @ n2"
    "set (map song_title n2) \<subseteq> song_name ` set songs"
    using Cons.IH by blast
  from n1 n2 have "lyricsFile (fold (process_song toStr lyric) (s # songs) st) = lyricsFile st @ (n1 @ n2)"
    by simp
  moreover from n1 n2 have "set (map song_title (n1 @ n2)) \<subseteq> song_name ` set (s # songs)"
    by auto
  ultimately show ?case by blast
qed

lemma process_page_Some_calls:
  "search page = Some songs \<Longrightarrow>
   lyricCalls (process_page toStr search lyric page st)
     = lyricCalls st @ filter (\<lambda>song. cleanSongTitle (song_name song) \<notin> set (existingSongs st)) songs"
  by (simp add: process_page_def Let_def fold_process_song_calls Set_has_def)

lemma process_page_Some_existing:
  "search page = Some songs \<Longrightarrow>
   set (existingSongs (process_page toStr search lyric page st))
     = set (existingSongs st) \<union> (\<lambda>s. cleanSongTitle (song_name s)) ` set songs"
  by (auto simp: process_page_def Let_def fold_process_song_existing Set_has_def)

lemma process_page_distinct:
  "distinct (existingSongs st) \<Longrightarrow> distinct (existingSongs (process_page toStr search lyric page st))"
  by (cases "search page") (simp_all add: process_page_def Let_def fold_process_song_distinct)

lemma process_page_grows:
  "set (existingSongs st) \<subseteq> set (existingSongs (process_page toStr search lyric page st))"
  by (cases "search page") (auto simp: process_page_Some_existing, simp add: process_page_def)

lemma process_page_calls:
  "\<exists>calls. lyricCalls (process_page toStr search lyric page st) = lyricCalls st @ calls
      \<and> (\<forall>s \<in> set calls. cleanSongTitle (song_name s) \<notin> set (existingSongs st))"
proof (cases "search page")
  case None
  then show ?thesis by (simp add: process_page_def)
next
  case (Some songs)
  have "lyricCalls (process_page toStr search lyric page st)
     = lyricCalls st @ filter (\<lambda>song. cleanSongTitle (song_name song) \<notin> set (existingSongs st)) songs"
    using Some by (rule process_page_Some_calls)
  then show ?thesis by auto
qed

lemma process_page_file:
  "\<exists>new. lyricsFile (process_page toStr search lyric page st) = lyricsFile st @ new
      \<and> set (normalized_titles new) \<inter> set (existingSongs st) = {}
      \<and> set (normalized_titles new) \<subseteq> set (existingSongs (process_page toStr search lyric page st))"
proof (cases "search page")
  case None
  then show ?thesis by (simp add: process_page_def normalized_titles_def)
next
  case (Some songs)
  let ?new = "filter (\<lambda>song. \<not> Set_has (existingSongs st) (cleanSongTitle (song_name song))) songs"
  let ?st1 = "st\<lparr>totalSongsFound := totalSongsFound st + length songs\<rparr>"
  have pp: "process_page toStr search lyric page st = fold (process_song toStr lyric) ?new ?st1"
    using Some by (simp add: process_page_def Let_def)
  obtain new where new: "lyricsFile (fold (process_song toStr lyric) ?new ?st1) = lyricsFile ?st1 @ new"
    "set (map song_title new) \<subseteq> song_name ` set ?new"
    using fold_process_song_file by blast
  have a: "lyricsFile (process_page toStr search lyric page st) = lyricsFile st @ new"
    using new(1) pp by simp
  have keys: "set (normalized_titles new) \<subseteq> (\<lambda>s. cleanSongTitle (song_name s)) ` set ?new"
    using new(2) by (auto simp: normalized_titles_def)
  then have b: "set (normalized_titles new) \<inter> set (existingSongs st) = {}"
    by (auto simp: Set_has_def)
  have "set (existingSongs (process_page toStr search lyric page st))
          = set (existingSongs st) \<union> (\<lambda>s. cleanSongTitle (song_name s)) ` set songs"
    using Some by (rule process_page_Some_existing)
  with keys have c: "set (normalized_titles new) \<subseteq> set (existingSongs (process_page toStr search lyric page st))"
    by auto
  from a b c show ?thesis by blast
qed

lemma run_pages_Cons:
  "run_pages toStr search lyric (p # ps) st
     = run_pages toStr search lyric ps (process_page toStr search lyric p st)"
  by (simp add: run_pages_def)

lemma run_pages_append:
  "run_pages toStr search lyric (ps1 @ ps2) st
     = run_pages toStr search lyric ps2 (run_pages toStr search lyric ps1 st)"
  by (simp add: run_pages_def)

lemma run_pages_grows:
  "set (existingSongs st) \<subseteq> set (existingSongs (run_pages toStr search lyric ps st))"
proof (induction ps arbitrary: st)
  case Nil
  then show ?case by (simp add: run_pages_def)
next
  case (Cons p ps)
  show ?case unfolding run_pages_Cons
    using process_page_grows[of st toStr search lyric p]
      Cons.IH[of "process_page toStr search lyric p st"] by blast
qed

lemma run_pages_calls:
  "\<exists>calls. lyricCalls (run_pages toStr search lyric ps st) = lyricCalls st @ calls
      \<and> (\<forall>s \<in> set calls. cleanSongTitle (song_name s) \<notin> set (existingSongs st))"
proof (induction ps arbitrary: st)
  case Nil
  then show ?case by (simp add: run_pages_def)
next
  case (Cons p ps)
  let ?st1 = "process_page toStr search lyric p st"
  obtain c1 where c1: "lyricCalls ?st1 = lyricCalls st @ c1"
    "\<forall>s \<in> set c1. cleanSongTitle (song_name s) \<notin> set (existingSongs st)"
    using process_page_calls by blast
  obtain c2 where c2: "lyricCalls (run_pages toStr search lyric ps ?st1) = lyricCalls ?st1 @ c2"
    "\<forall>s \<in> set c2. cleanSongTitle (song_name s) \<notin> set (existingSongs ?st1)"
    using Cons.IH by blast
  have "\<forall>s \<in> set c2. cleanSongTitle (song_name s) \<notin> set (existingSongs st)"
    using c2(2) process_page_grows[of st toStr search lyric p] by blast
  with c1 c2 have "lyricCalls (run_pages toStr search lyric (p # ps) st) = lyricCalls st @ (c1 @ c2)
     \<and> (\<forall>s \<in> set (c1 @ c2). cleanSongTitle (song_name s) \<notin> set (existingSongs st))"
    by (auto simp: run_pages_Cons)
  then show ?case by blast
qed

lemma run_pages_file:
  "\<exists>new. lyricsFile (run_pages toStr search lyric ps st) = lyricsFile st @ new
      \<and> set (normalized_titles new) \<inter> set (existingSongs st) = {}
      \<and> set (normalized_titles new) \<subseteq> set (existingSongs (run_pages toStr search lyric ps st))"
proof (induction ps arbitrary: st)
  case Nil
  then show ?case by (simp add: run_pages_def normalized_titles_def)
next
  case (Cons p ps)
  let ?st1 = "process_page toStr search lyric p st"
  let ?st2 = "run_pages toStr search lyric ps ?st1"
  obtain n1 where n1: "lyricsFile ?st1 = lyricsFile st @ n1"
    "set (normalized_titles n1) \<inter> set (existingSongs st) = {}"
    "set (normalized_titles n1) \<subseteq> set (existingSongs ?st1)"
    using process_page_file by blast
  obtain n2 where n2: "lyricsFile ?st2 = lyricsFile ?st1 @ n2"
    "set (normalized_titles n2) \<inter> set (existingSongs ?st1) = {}"
    "set (normalized_titles n2) \<subseteq> set (existingSongs ?st2)"
    using Cons.IH by blast
  have g1: "set (existingSongs st) \<subseteq> set (existingSongs ?st1)" by (rule process_page_grows)
  have g2: "set (existingSongs ?st1) \<subseteq> set (existingSongs ?st2)" by (rule run_pages_grows)
  have nt: "normalized_titles (n1 @ n2) = normalized_titles n1 @ normalized_titles n2"
    by (simp add: normalized_titles_def)
  have a: "lyricsFile (run_pages toStr search lyric (p # ps) st) = lyricsFile st @ (n1 @ n2)"
    using n1(1) n2(1) by (simp add: run_pages_Cons)
  have b: "set (normalized_titles (n1 @ n2)) \<inter> set (existingSongs st) = {}"
    using n1(2) n2(2) g1 unfolding nt by auto
  have c: "set (normalized_titles (n1 @ n2)) \<subseteq> set (existingSongs (run_pages toStr search lyric (p # ps) st))"
    using n1(3) n2(3) g2 unfolding nt run_pages_Cons by auto
  from a b c show ?case by blast
qed

lemma appended_append: "lyricsFile st' = lyricsFile st @ new \<Longrightarrow> appended st st' = new"
  by (simp add: appended_def)

lemma called_append: "lyricCalls st' = lyricCalls st @ calls \<Longrightarrow> called st st' = calls"
  by (simp add: called_def)

subsection \<open>The second script\<close>

lemma process_song2_known:
  "song_name song \<in> set (existingSongs st) \<Longrightarrow>
     lyricsFile (process_song2 lyric song st) = lyricsFile st
     \<and> lyricCalls (process_song2 lyric song st) = lyricCalls st
     \<and> existingSongs (process_song2 lyric song st) = existingSongs st"
  by (simp add: process_song2_def Set_has_def)

lemma process_song2_new:
  assumes "song_name song \<notin> set (existingSongs st)"
  shows "lyricCalls (process_song2 lyric song st) = lyricCalls st @ [song]
     \<and> ((lyricsFile (process_song2 lyric song st) = lyricsFile st
          \<and> existingSongs (process_song2 lyric song st) = existingSongs st)
        \<or> (\<exists>r. lyricsFile (process_song2 lyric song st) = lyricsFile st @ [r]
              \<and> song_title r = song_name song
              \<and> existingSongs (process_song2 lyric song st) = existingSongs st @ [song_name song]))"
proof (cases "getSongLyric2 lyric song")
  case Failure
  with assms show ?thesis by (simp add: process_song2_def Set_has_def Let_def)
next
  case (Success l)
  show ?thesis
  proof (cases "js_includes (cleanLyrics l) PURE_MUSIC")
    case True
    with Success assms show ?thesis by (simp add: process_song2_def Set_has_def Let_def)
  next
    case False
    with Success assms show ?thesis by (simp add: process_song2_def Set_has_def Set_add_def Let_def)
  qed
qed

lemma process_song2_inv:
  assumes "lyricsFile st = base @ new" "distinct (map song_title new)"
    "set (map song_title new) \<inter> E0 = {}" "set (existingSongs st) = E0 \<union> set (map song_title new)"
  shows "\<exists>new'. lyricsFile (process_song2 lyric song st) = base @ new'
           \<and> distinct (map song_title new')
           \<and> set (map song_title new') \<inter> E0 = {}
           \<and> set (existingSongs (process_song2 lyric song st)) = E0 \<union> set (map song_title new')"
proof (cases "song_name song \<in> set (existingSongs st)")
  case True
  from process_song2_known[OF True, of lyric] assms show ?thesis by auto
next
  case False
  from process_song2_new[OF False, of lyric]
  consider (same) "lyricsFile (process_song2 lyric song st) = lyricsFile st"
      "existingSongs (process_song2 lyric song st) = existingSongs st"
    | (app) r where "lyricsFile (process_song2 lyric song st) = lyricsFile st @ [r]"
      "song_title r = song_name song"
      "existingSongs (process_song2 lyric song st) = existingSongs st @ [song_name song]"
    by blast
  then show ?thesis
  proof cases
    case same
    with assms show ?thesis by auto
  next
    case app
    from False assms(4) have nn: "song_name song \<notin> set (map song_title new)" "song_name song \<notin> E0"
      by auto
    have a: "lyricsFile (process_song2 lyric song st) = base @ (new @ [r])"
      using app(1) assms(1) by simp
    have b: "distinct (map song_title (new @ [r]))" using assms(2) nn(1) app(2) by simp
    have c: "set (map song_title (new @ [r])) \<inter> E0 = {}" using assms(3) nn(2) app(2) by auto
    have d: "set (existingSongs (process_song2 lyric song st)) = E0 \<union> set (map song_title (new @ [r]))"
      using app(2,3) assms(4) by auto
    from a b c d show ?thesis by blast
  qed
qed

lemma fold_process_song2_inv:
  assumes "lyricsFile st = base @ new" "distinct (map song_title new)"
    "set (map song_title new) \<inter> E0 = {}" "set (existingSongs st) = E0 \<union> set (map song_title new)"
  shows "\<exists>new'. lyricsFile (fold (process_song2 lyric) songs st) = base @ new'
           \<and> distinct (map song_title new')
           \<and> set (map song_title new') \<inter> E0 = {}
           \<and> set (existingSongs (fold (process_song2 lyric) songs st)) = E0 \<union> set (map song_title new')"
  using assms
proof (induction songs arbitrary: st new)
  case Nil
  then show ?case by auto
next
  case (Cons s songs)
  from process_song2_inv[OF Cons.prems, of lyric s] obtain n1 where
    n1: "lyricsFile (process_song2 lyric s st) = base @ n1" "distinct (map song_title n1)"
      "set (map song_title n1) \<inter> E0 = {}"
      "set (existingSongs (process_song2 lyric s st)) = E0 \<union> set (map song_title n1)"
    by blast
  from Cons.IH[OF n1] show ?case by simp
qed

lemma process_page2_inv:
  assumes "lyricsFile st = base @ new" "distinct (map song_title new)"
    "set (map song_title new) \<inter> E0 = {}" "set (existingSongs st) = E0 \<union> set (map song_title new)"
  shows "\<exists>new'. lyricsFile (process_page2 search lyric page st) = base @ new'
           \<and> distinct (map song_title new')
           \<and> set (map song_title new') \<inter> E0 = {}
           \<and> set (existingSongs (process_page2 search lyric page st)) = E0 \<union> set (map song_title new')"
proof (cases "search page")
  case None
  with assms show ?thesis by (auto simp: process_page2_def)
next
  case (Some songs)
  show ?thesis
  proof (cases "songs = []")
    case True
    with Some assms show ?thesis by (auto simp: process_page2_def)
  next
    case False
    let ?st1 = "st\<lparr>totalSongsFound := totalSongsFound st + length songs\<rparr>"
    have "lyricsFile ?st1 = base @ new" "set (existingSongs ?st1) = E0 \<union> set (map song_title new)"
      using assms by simp_all
    from fold_process_song2_inv[OF this(1) assms(2,3) this(2), of lyric songs]
    show ?thesis using Some False by (simp add: process_page2_def)
  qed
qed

lemma run_pages2_inv:
  assumes "lyricsFile st = base @ new" "distinct (map song_title new)"
    "set (map song_title new) \<inter> E0 = {}" "set (existingSongs st) = E0 \<union> set (map song_title new)"
  shows "\<exists>new'. lyricsFile (run_pages2 search lyric ps st) = base @ new'
           \<and> distinct (map song_title new')
           \<and> set (map song_title new') \<inter> E0 = {}"
  using assms
proof (induction ps arbitrary: st new)
  case Nil
  then show ?case by (auto simp: run_pages2_def)
next
  case (Cons p ps)
  from process_page2_inv[OF Cons.prems, of search lyric p] obtain n1 where
    n1: "lyricsFile (process_page2 search lyric p st) = base @ n1" "distinct (map song_title n1)"
      "set (map song_title n1) \<inter> E0 = {}"
      "set (existingSongs (process_page2 search lyric p st)) = E0 \<union> set (map song_title n1)"
    by blast
  from Cons.IH[OF n1] show ?case by (simp add: run_pages2_def)
qed

lemma run_pages2_file:
  "\<exists>new. lyricsFile (run_pages2 search lyric ps st) = lyricsFile st @ new
      \<and> distinct (map song_title new)
      \<and> set (map song_title new) \<inter> set (existingSongs st) = {}"
  using run_pages2_inv[of st "lyricsFile st" "[]" "set (existingSongs st)" search lyric ps] by simp

text \<open>
  Claim C3, as amended. First script (key: the normalized title): of the tracks of a
  page, exactly those whose key is not in existingSongs when the page is filtered are
  fetched, the others are skipped without a fetch; no record appended in a run has a key
  that was known when the run started; the key of every appended record is in
  existingSongs afterwards; and no record appended on an earlier page shares its
  normalized title with a record appended on a later page. Second script (key: the
  title as it is): a track whose title is in existingSongs is skipped without a fetch
  and without an append; no two records appended in a run have the same title, and none
  has a title that was known when the run started. Two tracks of one page with the same
  normalized title are left out of the statement.
\<close>

theorem ingestion_skips_known_titles:
  "(search page = Some songs \<longrightarrow>
      called st (process_page toStr search lyric page st)
        = filter (\<lambda>song. cleanSongTitle (song_name song) \<notin> set (existingSongs st)) songs)
   \<and> set (normalized_titles (appended st (run_pages toStr search lyric ps st)))
        \<inter> set (existingSongs st) = {}
   \<and> set (normalized_titles (appended st (run_pages toStr search lyric ps st)))
        \<subseteq> set (existingSongs (run_pages toStr search lyric ps st))
   \<and> set (normalized_titles (appended st (run_pages toStr search lyric ps st)))
        \<inter> set (normalized_titles (appended (run_pages toStr search lyric ps st)
                                          (run_pages toStr search lyric (ps @ ps') st))) = {}
   \<and> (song_name song \<in> set (existingSongs st) \<longrightarrow>
        called st (process_song2 lyric song st) = [] \<and> appended st (process_song2 lyric song st) = [])
   \<and> distinct (map song_title (appended st (run_pages2 search lyric ps st)))
   \<and> set (map song_title (appended st (run_pages2 search lyric ps st))) \<inter> set (existingSongs st) = {}"
proof -
  let ?st1 = "run_pages toStr search lyric ps st"
  let ?st2 = "run_pages toStr search lyric ps' ?st1"
  have p1: "called st (process_page toStr search lyric page st)
        = filter (\<lambda>song. cleanSongTitle (song_name song) \<notin> set (existingSongs st)) songs"
    if "search page = Some songs"
    using that by (simp add: process_page_Some_calls called_def)
  obtain n1 where n1: "lyricsFile ?st1 = lyricsFile st @ n1"
    "set (normalized_titles n1) \<inter> set (existingSongs st) = {}"
    "set (normalized_titles n1) \<subseteq> set (existingSongs ?st1)"
    using run_pages_file by blast
  obtain n2 where n2: "lyricsFile ?st2 = lyricsFile ?st1 @ n2"
    "set (normalized_titles n2) \<inter> set (existingSongs ?st1) = {}"
    using run_pages_file by blast
  have a1: "appended st ?st1 = n1" using n1(1) by (rule appended_append)
  have a2: "appended ?st1 (run_pages toStr search lyric (ps @ ps') st) = n2"
    unfolding run_pages_append using n2(1) by (rule appended_append)
  have p2: "set (normalized_titles (appended st ?st1)) \<inter> set (existingSongs st) = {}"
    using n1(2) a1 by simp
  have p3: "set (normalized_titles (appended st ?st1)) \<subseteq> set (existingSongs ?st1)"
    using n1(3) a1 by simp
  have p4: "set (normalized_titles (appended st ?st1))
        \<inter> set (normalized_titles (appended ?st1 (run_pages toStr search lyric (ps @ ps') st))) = {}"
    unfolding a1 a2 using n1(3) n2(2) by blast
  have p5: "called st (process_song2 lyric song st) = [] \<and> appended st (process_song2 lyric song st) = []"
    if "song_name song \<in> set (existingSongs st)"
    using process_song2_known[OF that, of lyric] by (simp add: called_def appended_def)
  obtain m where m: "lyricsFile (run_pages2 search lyric ps st) = lyricsFile st @ m"
    "distinct (map song_title m)" "set (map song_title m) \<inter> set (existingSongs st) = {}"
    using run_pages2_file by blast
  have a3: "appended st (run_pages2 search lyric ps st) = m" using m(1) by (rule appended_append)
  have p6: "distinct (map song_title (appended st (run_pages2 search lyric ps st)))"
    using m(2) a3 by simp
  have p7: "set (map song_title (appended st (run_pages2 search lyric ps st))) \<inter> set (existingSongs st) = {}"
    using m(3) a3 by simp
  from p1 p2 p3 p4 p5 p6 p7 show ?thesis by blast
qed

subsection \<open>Examples of runs\<close>

lemmas ingest_eval = run_pages_def run_pages2_def process_page_def process_page2_def process_song_def
  process_song2_def getSongLyric_def getSongLyric2_def writeLyricToFile_def Set_has_def Set_add_def
  cleanSongTitle_def artist_p_masters_def String_def bindE_def normalized_titles_def appended_def called_def
  song_x_def song_x_live_def search_both_def search_twice_def lyric_la_def lyric_fails_def
  lyric_tag_only_def search_one_def empty_state_def known_x_state_def k_lyric_def PURE_MUSIC_def
  cleanLyrics_def cleanLyrics_index_def js_def match_tag_colon_def match_tag_frac_def
  mmss_def frac_close_def orElse_def isDigit_def LBRACKET_def RBRACKET_def COLON_def DOT_def NL_def
  trim_def isWhiteSpace_def isLineTerminator_def LPAREN_def RPAREN_def FW_LPAREN_def FW_RPAREN_def Let_def
  searchLuoTianyiSongs_def searchLuoTianyiSongs2_def upt_rec

text \<open>The theorem at a run that starts with the title \<^verbatim>\<open>x\<close> known and a page that
  lists \<^verbatim>\<open>x\<close> and \<^verbatim>\<open>x (Live)\<close>: the first script fetches neither, the second skips
  \<^verbatim>\<open>x\<close> without a fetch and without an append.\<close>

theorem ingestion_skips_known_titles_witness:
  "search_both 1 = Some [song_x, song_x_live]
   \<and> called known_x_state (process_page (\<lambda>v. None) search_both lyric_la 1 known_x_state) = []
   \<and> song_name song_x \<in> set (existingSongs known_x_state)
   \<and> called known_x_state (process_song2 lyric_la song_x known_x_state) = []
   \<and> appended known_x_state (process_song2 lyric_la song_x known_x_state) = []"
proof -
  have h1: "search_both 1 = Some [song_x, song_x_live]" by (simp add: search_both_def)
  have h2: "song_name song_x \<in> set (existingSongs known_x_state)"
    by (simp add: known_x_state_def empty_state_def song_x_def)
  have f: "filter (\<lambda>song. cleanSongTitle (song_name song) \<notin> set (existingSongs known_x_state))
             [song_x, song_x_live] = []"
    by (simp add: ingest_eval)
  from h1 h2 f ingestion_skips_known_titles[of search_both 1 "[song_x, song_x_live]" known_x_state
      "\<lambda>v. None" lyric_la "[1]" "[]" song_x]
  show ?thesis by simp
qed

text \<open>
  Claim C3 as stated fails. When one page lists \<^verbatim>\<open>x\<close> and \<^verbatim>\<open>x (Live)\<close> and none of
  the two is known, both scripts append a record for each, and the two records share
  the normalized title \<^verbatim>\<open>x\<close>: the first script has filtered the page before it adds
  any key, and the second script compares the titles as they are.
\<close>

theorem ingestion_appends_same_title:
  "\<not> distinct (normalized_titles
        (appended empty_state (searchLuoTianyiSongs (\<lambda>v. None) search_both lyric_la 1 1 empty_state)))
   \<and> \<not> distinct (normalized_titles
        (appended empty_state (searchLuoTianyiSongs2 search_both lyric_la 1 1 empty_state)))"
proof -
  have a: "normalized_titles
        (appended empty_state (searchLuoTianyiSongs (\<lambda>v. None) search_both lyric_la 1 1 empty_state))
        = [js ''x'', js ''x'']"
    by (simp add: ingest_eval)
  have b: "normalized_titles
        (appended empty_state (searchLuoTianyiSongs2 search_both lyric_la 1 1 empty_state))
        = [js ''x'', js ''x'']"
    by (simp add: ingest_eval)
  show ?thesis unfolding a b by simp
qed

subsection \<open>The set of known titles does not depend on the lyrics\<close>

lemma process_song_existing_eq:
  "existingSongs (process_song toStr lyric song st)
     = Set_add (cleanSongTitle (song_name song)) (existingSongs st)"
  by (simp add: process_song_def Let_def writeLyricToFile_def split: option.splits)

lemma fold_process_song_existing_eq:
  "existingSongs st = existingSongs st' \<Longrightarrow>
   existingSongs (fold (process_song toStr lyric) songs st)
     = existingSongs (fold (process_song toStr' lyric') songs st')"
  by (induction songs arbitrary: st st') (simp_all add: process_song_existing_eq)

lemma process_page_existing_eq:
  assumes "existingSongs st = existingSongs st'"
  shows "existingSongs (process_page toStr search lyric page st)
     = existingSongs (process_page toStr' search lyric' page st')"
proof (cases "search page")
  case None
  with assms show ?thesis by (simp add: process_page_def)
next
  case (Some songs)
  have "existingSongs (st\<lparr>totalSongsFound := totalSongsFound st + length songs\<rparr>)
      = existingSongs (st'\<lparr>totalSongsFound := totalSongsFound st' + length songs\<rparr>)"
    using assms by simp
  from fold_process_song_existing_eq[OF this] Some assms show ?thesis
    by (simp add: process_page_def Let_def)
qed

lemma run_pages_existing_eq:
  "existingSongs st = existingSongs st' \<Longrightarrow>
   existingSongs (run_pages toStr search lyric ps st)
     = existingSongs (run_pages toStr' search lyric' ps st')"
proof (induction ps arbitrary: st st')
  case Nil
  then show ?case by (simp add: run_pages_def)
next
  case (Cons p ps)
  from process_page_existing_eq[OF Cons.prems]
  have "existingSongs (process_page toStr search lyric p st)
      = existingSongs (process_page toStr' search lyric' p st')" .
  from Cons.IH[OF this] show ?case by (simp add: run_pages_Cons)
qed

text \<open>
  Claim C10, as amended. In the first script, the normalized title of a track is in
  existingSongs as soon as the track has been processed, whatever the lyric service
  answered; when a page has been processed, so is the normalized title of every track
  the page lists; a track whose normalized title is in existingSongs is fetched on
  none of the pages that are searched from then on; and existingSongs after a run is
  the same list whatever the lyric service answers, so the reported size counts the
  rejected and the failed tracks like the saved ones: after a page it is the number of
  different keys among the known ones and those of the listed tracks.
\<close>

theorem processed_title_is_known:
  "cleanSongTitle (song_name song) \<in> set (existingSongs (process_song toStr lyric song st))
   \<and> (search page = Some songs \<and> song \<in> set songs \<longrightarrow>
        cleanSongTitle (song_name song) \<in> set (existingSongs (process_page toStr search lyric page st)))
   \<and> (cleanSongTitle (song_name song) \<in> set (existingSongs st) \<longrightarrow>
        list_all (\<lambda>s. cleanSongTitle (song_name s) \<noteq> cleanSongTitle (song_name song))
          (called st (run_pages toStr search lyric ps st)))
   \<and> existingSongs (run_pages toStr search lyric ps st)
        = existingSongs (run_pages toStr' search lyric' ps st)
   \<and> (search page = Some songs \<and> distinct (existingSongs st) \<longrightarrow>
        length (existingSongs (process_page toStr search lyric page st))
          = card (set (existingSongs st) \<union> (\<lambda>s. cleanSongTitle (song_name s)) ` set songs))"
proof -
  have a: "cleanSongTitle (song_name song) \<in> set (existingSongs (process_song toStr lyric song st))"
    by (simp add: process_song_existing)
  have b: "cleanSongTitle (song_name song) \<in> set (existingSongs (process_page toStr search lyric page st))"
    if "search page = Some songs" "song \<in> set songs"
    using process_page_Some_existing[of search page songs toStr lyric st, OF that(1)] that(2) by auto
  have c: "list_all (\<lambda>s. cleanSongTitle (song_name s) \<noteq> cleanSongTitle (song_name song))
          (called st (run_pages toStr search lyric ps st))"
    if k: "cleanSongTitle (song_name song) \<in> set (existingSongs st)"
  proof -
    obtain calls where calls: "lyricCalls (run_pages toStr search lyric ps st) = lyricCalls st @ calls"
      "\<forall>s \<in> set calls. cleanSongTitle (song_name s) \<notin> set (existingSongs st)"
      using run_pages_calls by blast
    from calls(1) have "called st (run_pages toStr search lyric ps st) = calls" by (rule called_append)
    with calls(2) k show ?thesis by (auto simp: list_all_iff)
  qed
  have d: "existingSongs (run_pages toStr search lyric ps st)
        = existingSongs (run_pages toStr' search lyric' ps st)"
    by (rule run_pages_existing_eq) simp
  have e: "length (existingSongs (process_page toStr search lyric page st))
          = card (set (existingSongs st) \<union> (\<lambda>s. cleanSongTitle (song_name s)) ` set songs)"
    if "search page = Some songs" "distinct (existingSongs st)"
  proof -
    have "distinct (existingSongs (process_page toStr search lyric page st))"
      using that(2) by (rule process_page_distinct)
    then have "length (existingSongs (process_page toStr search lyric page st))
        = card (set (existingSongs (process_page toStr search lyric page st)))"
      by (simp add: distinct_card)
    also have "\<dots> = card (set (existingSongs st) \<union> (\<lambda>s. cleanSongTitle (song_name s)) ` set songs)"
      using process_page_Some_existing[of search page songs toStr lyric st, OF that(1)] by simp
    finally show ?thesis .
  qed
  from a b c d e show ?thesis by blast
qed

text \<open>The theorem at a page that lists \<^verbatim>\<open>x\<close> and \<^verbatim>\<open>x (Live)\<close> with a lyric service
  that fails on every request.\<close>

theorem processed_title_is_known_witness:
  "search_both 1 = Some [song_x, song_x_live] \<and> song_x \<in> set [song_x, song_x_live]
   \<and> cleanSongTitle (song_name song_x) \<in> set (existingSongs (process_page (\<lambda>v. None) search_both lyric_fails 1 empty_state))
   \<and> cleanSongTitle (song_name song_x) \<in> set (existingSongs known_x_state)
   \<and> list_all (\<lambda>s. cleanSongTitle (song_name s) \<noteq> cleanSongTitle (song_name song_x))
          (called known_x_state (run_pages (\<lambda>v. None) search_both lyric_fails [1] known_x_state))
   \<and> distinct (existingSongs empty_state)
   \<and> length (existingSongs (process_page (\<lambda>v. None) search_both lyric_fails 1 empty_state)) = 1"
proof -
  have h1: "search_both 1 = Some [song_x, song_x_live]" by (simp add: search_both_def)
  have h2: "song_x \<in> set [song_x, song_x_live]" by simp
  have h3: "cleanSongTitle (song_name song_x) \<in> set (existingSongs known_x_state)"
    by (simp add: ingest_eval)
  have h4: "distinct (existingSongs empty_state)" by (simp add: empty_state_def)
  have c: "card (set (existingSongs empty_state) \<union> (\<lambda>s. cleanSongTitle (song_name s)) ` set [song_x, song_x_live]) = 1"
    by (simp add: ingest_eval)
  from h1 h2 h4 c processed_title_is_known[of song_x "\<lambda>v. None" lyric_fails empty_state search_both 1
      "[song_x, song_x_live]" "[]"]
  have p1: "cleanSongTitle (song_name song_x) \<in> set (existingSongs (process_page (\<lambda>v. None) search_both lyric_fails 1 empty_state))"
    and p2: "length (existingSongs (process_page (\<lambda>v. None) search_both lyric_fails 1 empty_state)) = 1"
    by simp_all
  from h3 processed_title_is_known[of song_x "\<lambda>v. None" lyric_fails known_x_state search_both 1
      "[song_x, song_x_live]" "[1]"]
  have p3: "list_all (\<lambda>s. cleanSongTitle (song_name s) \<noteq> cleanSongTitle (song_name song_x))
          (called known_x_state (run_pages (\<lambda>v. None) search_both lyric_fails [1] known_x_state))"
    by blast
  from h1 h2 h3 h4 p1 p2 p3 show ?thesis by blast
qed

text \<open>
  Claim C10 as stated fails: when a page lists the same track twice and the lyric
  service fails, the track is fetched twice in the same run, because the new songs of
  the page are filtered before the first of them is processed.
\<close>

theorem failed_track_fetched_twice:
  "called empty_state (searchLuoTianyiSongs (\<lambda>v. None) search_twice lyric_fails 1 1 empty_state)
     = [song_x, song_x]
   \<and> appended empty_state (searchLuoTianyiSongs (\<lambda>v. None) search_twice lyric_fails 1 1 empty_state) = []"
proof -
  have a: "called empty_state (searchLuoTianyiSongs (\<lambda>v. None) search_twice lyric_fails 1 1 empty_state)
     = [song_x, song_x]"
    by (simp add: ingest_eval)
  have b: "appended empty_state (searchLuoTianyiSongs (\<lambda>v. None) search_twice lyric_fails 1 1 empty_state) = []"
    by (simp add: ingest_eval)
  from a b show ?thesis by simp
qed

subsection \<open>Lyrics that are absent or empty after cleaning\<close>

text \<open>
  Claim C6, evaluated where the scripts depart from it. In processJsonlFile a record
  without lyrics is not passed over by the filter: line 46 throws a TypeError, which
  the handler of the line reports as a failure to parse. In the second ingestion script
  lyrics that consist of a timing tag only, hence empty after cleaning, are appended
  as a record with empty lyrics. In the first ingestion script the same lyrics give a
  record that is not written to the file but counted as a newly added song.
\<close>

theorem empty_lyrics_not_filtered:
  "jsonlLyrics (Obj [(k_song_title, Str (js ''x'')), (k_p_masters, Arr [])]) = Inl TypeError
   \<and> lyricsFile (searchLuoTianyiSongs2 search_one lyric_tag_only 1 1 empty_state)
       = [\<lparr>song_title = js ''x'', p_masters = Str (js ''a''), lyrics = []\<rparr>]
   \<and> lyricsFile (searchLuoTianyiSongs (\<lambda>v. None) search_one lyric_tag_only 1 1 empty_state) = []
   \<and> totalNewSongsAdded (searchLuoTianyiSongs (\<lambda>v. None) search_one lyric_tag_only 1 1 empty_state) = 1"
proof -
  have a: "jsonlLyrics (Obj [(k_song_title, Str (js ''x'')), (k_p_masters, Arr [])]) = Inl TypeError"
    by (simp add: jsonlLyrics_def bindE_def k_song_title_def k_p_masters_def k_lyrics_def js_def)
  have b: "lyricsFile (searchLuoTianyiSongs2 search_one lyric_tag_only 1 1 empty_state)
       = [\<lparr>song_title = js ''x'', p_masters = Str (js ''a''), lyrics = []\<rparr>]"
    by (simp add: ingest_eval)
  have c: "lyricsFile (searchLuoTianyiSongs (\<lambda>v. None) search_one lyric_tag_only 1 1 empty_state) = []"
    by (simp add: ingest_eval)
  have d: "totalNewSongsAdded (searchLuoTianyiSongs (\<lambda>v. None) search_one lyric_tag_only 1 1 empty_state) = 1"
    by (simp add: ingest_eval)
  from a b c d show ?thesis by simp
qed

end
